theory Spec2Isabelle
  imports Complex_Main
begin

section \<open>Data of the detection front-end\<close>

text \<open>
  The repository is a Streamlit script (\<open>app.py\<close>) and five functions in \<open>utils.py\<close>.
  Everything the functions do is an effect on the page, on a capture handle of OpenCV or
  on the detection model, so the embedding returns, next to the Python result, the list
  of effects in the order the code performs them. A Python exception is a value
  \<open>Inl e\<close>; \<open>except Exception\<close> catches every value of \<open>exn\<close>.
\<close>

datatype exn = NameError string | IndexError | LibraryError string

text \<open>
  A frame is a raster image. Its content is abstract (\<open>pixels\<close> names it); the size is
  kept because \<open>_display_detected_frames\<close> resizes.
\<close>

record frame =
  width :: nat
  height :: nat
  pixels :: nat

record box =
  xywh :: "real \<times> real \<times> real \<times> real"
  cls :: nat
  box_conf :: real

text \<open>\<open>res[0]\<close> of \<open>model.predict\<close>: the image it ran on and the boxes it kept.\<close>

record results =
  orig_img :: frame
  boxes :: "box list"

text \<open>
  \<open>res[0].plot()\<close>: the image with the boxes drawn, in BGR order; \<open>[:, :, ::-1]\<close>
  reverses the channel axis.
\<close>

record plotted =
  canvas :: frame
  drawn :: "box list"
  bgr :: bool

text \<open>
  \<open>model_path\<close> of \<open>app.py\<close> is the string \<open>""\<close> or
  \<open>Path(config.DETECTION_MODEL_DIR, str(model_type))\<close>; the path is kept symbolic.
\<close>

datatype model_path = Str string | Path string string

text \<open>
  A loaded model. What the network computes is not part of the repository: \<open>detector\<close>
  gives, for an image, the candidate detections before the confidence filter, or the
  exception the call raises on that image. \<open>model_id\<close> is the identity of the Python object.
\<close>

type_synonym detector = "frame \<Rightarrow> exn + box list"

record model =
  model_id :: nat
  ckpt_path :: model_path
  detector :: detector

datatype capture_source = Temp_file | Device nat

datatype button = Start_button | Stop_button

datatype message =
    Only_detection
  | Select_model
  | Load_failed model_path
  | Video_failed exn
  | Unknown_source

text \<open>
  The effects, one constructor per call of the source:
  \<^item> \<open>Yolo_construct p ok\<close>: \<open>YOLO(p)\<close> ran; \<open>ok\<close> tells whether it returned a model;
  \<^item> \<open>Capture_open\<close>, \<open>Capture_read\<close>, \<open>Capture_release\<close>: \<open>cv2.VideoCapture(...)\<close>,
    \<open>vid_cap.read()\<close> with the frame it delivered (\<open>None\<close> when \<open>success\<close> is false),
    \<open>vid_cap.release()\<close>;
  \<^item> \<open>Predict_call i img c r\<close>: \<open>model.predict(img, conf=c)\<close> on the model object \<open>i\<close>,
    with what it returned or raised;
  \<^item> \<open>Slot_image\<close>: \<open>st_frame.image(...)\<close>, the one slot made by \<open>st.empty()\<close>;
  \<^item> \<open>St_button\<close>, \<open>St_image_upload\<close>, \<open>St_video\<close>, \<open>St_image_result\<close>,
    \<open>St_write_box\<close>, \<open>St_error\<close>: the page elements.
\<close>

datatype event =
    Yolo_construct model_path bool
  | Capture_open capture_source
  | Capture_read "frame option"
  | Capture_release
  | Predict_call nat frame real "exn + results"
  | Slot_image plotted
  | St_button button
  | St_image_upload
  | St_video
  | St_image_result plotted
  | St_write_box "real \<times> real \<times> real \<times> real"
  | St_error message

text \<open>How a \<open>while\<close> loop was left when no exception left it.\<close>

datatype loop_exit = Condition_false | Read_failed_break

section \<open>The model call\<close>

text \<open>
  Modelled from the spec: \<open>YOLO.predict\<close> belongs to the ultralytics library, which is
  not among the sources. Section 4.2 of the spec says that the confidence "filters out all
  candidate detections below threshold; this is delegated entirely to the model's own
  post-processing". The call raises what the detector raises.
\<close>

definition predict :: "model \<Rightarrow> frame \<Rightarrow> real \<Rightarrow> exn + results" where
  "predict m img conf =
     (case detector m img of
        Inl e \<Rightarrow> Inl e
      | Inr candidates \<Rightarrow>
          Inr \<lparr>orig_img = img, boxes = filter (\<lambda>b. conf \<le> box_conf b) candidates\<rparr>)"

definition plot :: "results \<Rightarrow> plotted" where
  "plot res = \<lparr>canvas = orig_img res, drawn = boxes res, bgr = True\<rparr>"

definition reverse_channels :: "plotted \<Rightarrow> plotted" where
  "reverse_channels p = p\<lparr>bgr := \<not> bgr p\<rparr>"

section \<open>utils.py\<close>

subsection \<open>\<open>_display_detected_frames\<close>\<close>

text \<open>\<open>cv2.resize(image, (720, int(720 * (9 / 16))))\<close>.\<close>

definition std_height :: nat where
  "std_height = nat \<lfloor>720 * (9 / 16 :: real)\<rfloor>"

definition cv2_resize :: "frame \<Rightarrow> nat \<times> nat \<Rightarrow> frame" where
  "cv2_resize img dsize = img\<lparr>width := fst dsize, height := snd dsize\<rparr>"

definition display_detected_frames :: "real \<Rightarrow> model \<Rightarrow> frame \<Rightarrow> (exn + unit) \<times> event list" where
  "display_detected_frames conf m img =
     (let img' = cv2_resize img (720, std_height) in
      case predict m img' conf of
        Inl e \<Rightarrow> (Inl e, [Predict_call (model_id m) img' conf (Inl e)])
      | Inr res \<Rightarrow>
          (Inr (), [Predict_call (model_id m) img' conf (Inr res), Slot_image (plot res)]))"

subsection \<open>\<open>infer_uploaded_video\<close>\<close>

text \<open>
  An uploaded video is its bytes. \<open>cv2.VideoCapture(name)\<close> works on the file as it
  stands on disk: a decoder says, for the bytes of a file, whether OpenCV opens it and
  which frames \<open>read\<close> delivers before it first answers \<open>success = False\<close>. The
  constructor does not raise on a file it cannot open: \<open>isOpened()\<close> is false.
\<close>

type_synonym bytes = "nat list"

record video_file =
  content :: bytes

record stream =
  is_opened :: bool
  decoded :: "frame list"

type_synonym decoder = "bytes \<Rightarrow> stream"

text \<open>
  Lines 109-110: \<open>tempfile.NamedTemporaryFile()\<close> is a buffered binary file, and
  \<open>tfile.write(data)\<close> is the first write to it. The buffered writer of CPython keeps
  data that fit its buffer in the buffer, and hands longer data to the operating system
  at once. The file is neither flushed nor closed before line 111 opens it by name, so
  this is what the decoder finds on disk.
\<close>

definition tfile_write :: "nat \<Rightarrow> bytes \<Rightarrow> bytes" where
  "tfile_write buffer_size data = (if length data \<le> buffer_size then [] else data)"

text \<open>
  The loop \<open>while vid_cap.isOpened(): ...\<close> of lines 113-119, on the state of the
  capture: \<open>opened\<close> is \<open>vid_cap.isOpened()\<close> and the list holds the frames still to come.
  An exception of the body leaves the loop at once (the \<open>try\<close> is outside the loop).
\<close>

fun video_loop :: "real \<Rightarrow> model \<Rightarrow> bool \<Rightarrow> frame list \<Rightarrow> (exn + loop_exit) \<times> event list" where
  "video_loop conf m False fs = (Inr Condition_false, [])"
| "video_loop conf m True [] = (Inr Read_failed_break, [Capture_read None, Capture_release])"
| "video_loop conf m True (f # fs) =
     (case display_detected_frames conf m f of
        (Inl e, evs) \<Rightarrow> (Inl e, Capture_read (Some f) # evs)
      | (Inr _, evs) \<Rightarrow>
          (case video_loop conf m True fs of
             (r, evs') \<Rightarrow> (r, Capture_read (Some f) # evs @ evs')))"

text \<open>
  The widgets' answers of one script run. \<open>start_button\<close> and \<open>stop_button\<close> are what
  \<open>st.button\<close> returns: true in the run that the click started.
\<close>

record image_file =
  pil_open :: "exn + frame"

record ui =
  model_choice :: "string option"
  slider :: int
  source_choice :: "string option"
  image_upload :: "image_file option"
  video_upload :: "video_file option"
  start_button :: bool
  stop_button :: bool

text \<open>
  \<open>buffer_size\<close> is the size of the buffer of the temporary file and \<open>cv2\<close> the decoder
  of OpenCV; \<open>vid_cap\<close> is the capture of line 111.
\<close>

definition vid_cap_of :: "nat \<Rightarrow> decoder \<Rightarrow> video_file \<Rightarrow> stream" where
  "vid_cap_of buffer_size cv2 source_video = cv2 (tfile_write buffer_size (content source_video))"

definition infer_uploaded_video ::
  "nat \<Rightarrow> decoder \<Rightarrow> real \<Rightarrow> model \<Rightarrow> ui \<Rightarrow> (exn + unit) \<times> event list" where
  "infer_uploaded_video buffer_size cv2 conf m u =
     (case video_upload u of
        None \<Rightarrow> (Inr (), [])
      | Some source_video \<Rightarrow>
          if start_button u then
            (case video_loop conf m (is_opened (vid_cap_of buffer_size cv2 source_video))
                    (decoded (vid_cap_of buffer_size cv2 source_video)) of
               (Inl e, evs) \<Rightarrow>
                 (Inr (), [St_video, St_button Start_button, Capture_open Temp_file] @ evs
                            @ [St_error (Video_failed e)])
             | (Inr _, evs) \<Rightarrow>
                 (Inr (), [St_video, St_button Start_button, Capture_open Temp_file] @ evs))
          else (Inr (), [St_video, St_button Start_button]))"

subsection \<open>\<open>infer_uploaded_webcam\<close>\<close>

text \<open>
  The camera is what \<open>cv2.VideoCapture(0).read()\<close> answers at the first, second, ...
  call: a frame, or \<open>None\<close> when \<open>success\<close> is false (no device, device lost). A camera
  may deliver frames for ever, so the loop \<open>while not flag: ...\<close> of lines 134-140 takes
  fuel, one unit per test of the loop condition: \<open>None\<close> as result says that the loop is
  still running when the fuel is used up, and the events are those performed so far.
  \<open>flag\<close> is the local variable of line 131: the loop never assigns it.
\<close>

type_synonym camera = "nat \<Rightarrow> frame option"

fun webcam_loop ::
  "nat \<Rightarrow> real \<Rightarrow> model \<Rightarrow> bool \<Rightarrow> camera \<Rightarrow> nat \<Rightarrow> (exn + loop_exit) option \<times> event list" where
  "webcam_loop 0 conf m flag cam k = (None, [])"
| "webcam_loop (Suc n) conf m flag cam k =
     (if \<not> flag then
        (case cam k of
           None \<Rightarrow> (Some (Inr Read_failed_break), [Capture_read None, Capture_release])
         | Some f \<Rightarrow>
             (case display_detected_frames conf m f of
                (Inl e, evs) \<Rightarrow> (Some (Inl e), Capture_read (Some f) # evs)
              | (Inr _, evs) \<Rightarrow>
                  (case webcam_loop n conf m flag cam (Suc k) of
                     (r, evs') \<Rightarrow> (r, Capture_read (Some f) # evs @ evs'))))
      else (Some (Inr Condition_false), []))"

definition infer_uploaded_webcam ::
  "nat \<Rightarrow> real \<Rightarrow> model \<Rightarrow> camera \<Rightarrow> ui \<Rightarrow> (exn + unit) option \<times> event list" where
  "infer_uploaded_webcam fuel conf m cam u =
     (let flag = stop_button u in
      case webcam_loop fuel conf m flag cam 0 of
        (None, evs) \<Rightarrow> (None, [St_button Stop_button, Capture_open (Device 0)] @ evs)
      | (Some (Inl e), evs) \<Rightarrow>
          (Some (Inr ()), [St_button Stop_button, Capture_open (Device 0)] @ evs
                            @ [St_error (Video_failed e)])
      | (Some (Inr _), evs) \<Rightarrow>
          (Some (Inr ()), [St_button Stop_button, Capture_open (Device 0)] @ evs))"

subsection \<open>\<open>infer_uploaded_image\<close>\<close>

text \<open>
  \<open>Image.open(source_img)\<close> raises on a file that is no image; \<open>model.predict\<close> stands
  outside every \<open>try\<close> of the function (the one \<open>try\<close>, lines 83-89, holds only the
  \<open>st.write\<close> calls of the expander, which do not raise).
\<close>

definition infer_uploaded_image :: "real \<Rightarrow> model \<Rightarrow> ui \<Rightarrow> (exn + unit) \<times> event list" where
  "infer_uploaded_image conf m u =
     (case image_upload u of
        None \<Rightarrow> (Inr (), [])
      | Some source_img \<Rightarrow>
          (case pil_open source_img of
             Inl e \<Rightarrow> (Inl e, [])
           | Inr uploaded_image \<Rightarrow>
               if start_button u then
                 (case predict m uploaded_image conf of
                    Inl e \<Rightarrow>
                      (Inl e, [St_image_upload, St_button Start_button,
                               Predict_call (model_id m) uploaded_image conf (Inl e)])
                  | Inr res \<Rightarrow>
                      (Inr (), [St_image_upload, St_button Start_button,
                                Predict_call (model_id m) uploaded_image conf (Inr res),
                                St_image_result (reverse_channels (plot res))]
                               @ map (\<lambda>b. St_write_box (xywh b)) (boxes res)))
               else (Inr (), [St_image_upload, St_button Start_button])))"

subsection \<open>\<open>load_model\<close>\<close>

text \<open>
  \<open>weights p\<close> is what the constructor \<open>YOLO(p)\<close> finds at \<open>p\<close>: the detector of the
  weights file, or the exception it raises (no file, no model artifact). A new Python
  object gets the next identity.
\<close>

type_synonym weights = "model_path \<Rightarrow> exn + detector"

record loader_state =
  cache :: "model_path \<Rightarrow> model option"
  next_id :: nat

definition YOLO :: "weights \<Rightarrow> model_path \<Rightarrow> nat \<Rightarrow> exn + model" where
  "YOLO ws p i =
     (case ws p of
        Inl e \<Rightarrow> Inl e
      | Inr d \<Rightarrow> Inr \<lparr>model_id = i, ckpt_path = p, detector = d\<rparr>)"

text \<open>
  Modelled from the spec: the decorator \<open>@st.cache_resource\<close> belongs to Streamlit, which
  is not among the sources. Section 4.1 of the spec: "identical paths within the process
  lifetime return the previously constructed handle rather than re-reading the file". A call
  that raises stores nothing.
\<close>

definition load_model ::
  "weights \<Rightarrow> model_path \<Rightarrow> loader_state \<Rightarrow> (exn + model) \<times> event list \<times> loader_state" where
  "load_model ws p s =
     (case cache s p of
        Some m \<Rightarrow> (Inr m, [], s)
      | None \<Rightarrow>
          (case YOLO ws p (next_id s) of
             Inl e \<Rightarrow> (Inl e, [Yolo_construct p False], s)
           | Inr m \<Rightarrow>
               (Inr m, [Yolo_construct p True],
                \<lparr>cache = (cache s)(p \<mapsto> m), next_id = Suc (next_id s)\<rparr>)))"

text \<open>The calls of \<open>load_model\<close> of one process, in their order, with what each returned.\<close>

fun load_model_calls ::
  "weights \<Rightarrow> model_path list \<Rightarrow> loader_state \<Rightarrow> (exn + model) list \<times> event list \<times> loader_state" where
  "load_model_calls ws [] s = ([], [], s)"
| "load_model_calls ws (p # ps) s =
     (case load_model ws p s of
        (r, evs, s') \<Rightarrow>
          (case load_model_calls ws ps s' of
             (rs, evs', s'') \<Rightarrow> (r # rs, evs @ evs', s'')))"

section \<open>app.py\<close>

text \<open>
  \<open>config.py\<close> is not among the sources: its three constants are parameters.
\<close>

record config =
  DETECTION_MODEL_LIST :: "string list"
  DETECTION_MODEL_DIR :: string
  SOURCES_LIST :: "string list"

text \<open>What the script finds outside itself.\<close>

record env =
  background_image :: "exn + string"
  yolo_weights :: weights
  webcam :: camera
  tmp_buffer_size :: nat
  cv2_decoder :: decoder

definition py_index :: "'a list \<Rightarrow> nat \<Rightarrow> exn + 'a" where
  "py_index xs i = (if i < length xs then Inr (xs ! i) else Inl IndexError)"

text \<open>
  Lines 85-112. \<open>task_type\<close> is the only option of its select box, so the branch of line 97
  is never taken. \<open>model\<close> is bound only when \<open>load_model\<close> returns: the result \<open>None\<close> is
  the unbound name.
\<close>

text \<open>
  Python's \<open>float\<close> is the binary64 format: 53 significant bits, every operation rounded
  to the nearest representable value, ties to the even significand. \<open>rne\<close> rounds a real
  to the nearest integer, ties to even; \<open>exponent_from\<close> finds, for a positive \<open>x\<close>, the
  \<open>e\<close> with \<open>2^e \<le> x < 2^(e+1)\<close> (its fuel covers the exponents of the format);
  \<open>to_double\<close> is the double nearest to a real in the normal range of the format.
  Overflow and subnormal numbers are outside of what line 99 can compute.
\<close>

definition pow2 :: "int \<Rightarrow> real" where
  "pow2 s = (if 0 \<le> s then 2 ^ nat s else 1 / 2 ^ nat (- s))"

definition rne :: "real \<Rightarrow> int" where
  "rne y =
     (let f = \<lfloor>y\<rfloor> in
      if y - of_int f < 1 / 2 then f
      else if 1 / 2 < y - of_int f then f + 1
      else if even f then f else f + 1)"

fun exponent_from :: "nat \<Rightarrow> real \<Rightarrow> int \<Rightarrow> int" where
  "exponent_from 0 x e = e"
| "exponent_from (Suc n) x e =
     (if x < 1 then exponent_from n (2 * x) (e - 1)
      else if 2 \<le> x then exponent_from n (x / 2) (e + 1)
      else e)"

definition float_round :: "real \<Rightarrow> real" where
  "float_round x =
     (let e = exponent_from 1100 x 0 in of_int (rne (x / pow2 (e - 52))) * pow2 (e - 52))"

definition to_double :: "real \<Rightarrow> real" where
  "to_double x = (if x = 0 then 0 else sgn x * float_round \<bar>x\<bar>)"

text \<open>Lines 99-100: \<open>float(st.sidebar.slider(..., 30, 100, 50)) / 100\<close>.\<close>

definition py_float :: "int \<Rightarrow> real" where
  "py_float k = to_double (of_int k)"

definition confidence :: "ui \<Rightarrow> real" where
  "confidence u = to_double (py_float (slider u) / 100)"

definition truthy :: "string option \<Rightarrow> bool" where
  "truthy x = (case x of None \<Rightarrow> False | Some s \<Rightarrow> s \<noteq> [])"

definition model_path_of :: "config \<Rightarrow> ui \<Rightarrow> model_path" where
  "model_path_of cfg u =
     (case model_choice u of
        None \<Rightarrow> Str []
      | Some model_type \<Rightarrow>
          if model_type \<noteq> [] then Path (DETECTION_MODEL_DIR cfg) model_type else Str [])"

definition load_step ::
  "config \<Rightarrow> env \<Rightarrow> ui \<Rightarrow> loader_state \<Rightarrow> model option \<times> event list \<times> loader_state" where
  "load_step cfg e u s =
     (let pre = (if truthy (model_choice u) then [] else [St_error Select_model]);
          model_path = model_path_of cfg u in
      case load_model (yolo_weights e) model_path s of
        (Inl ex, evs, s') \<Rightarrow> (None, pre @ evs @ [St_error (Load_failed model_path)], s')
      | (Inr m, evs, s') \<Rightarrow> (Some m, pre @ evs, s'))"

text \<open>
  Lines 121-128. An argument list is evaluated before the call: with \<open>model\<close> unbound the
  call raises \<open>NameError\<close> and the callee never starts.
\<close>

definition call_with_model ::
  "model option \<Rightarrow> (model \<Rightarrow> (exn + unit) option \<times> event list) \<Rightarrow> (exn + unit) option \<times> event list" where
  "call_with_model mv f =
     (case mv of None \<Rightarrow> (Some (Inl (NameError ''model'')), []) | Some m \<Rightarrow> f m)"

definition returned :: "(exn + unit) \<times> event list \<Rightarrow> (exn + unit) option \<times> event list" where
  "returned r = (Some (fst r), snd r)"

definition dispatch ::
  "nat \<Rightarrow> config \<Rightarrow> env \<Rightarrow> ui \<Rightarrow> model option \<Rightarrow> (exn + unit) option \<times> event list" where
  "dispatch fuel cfg e u mv =
     (case py_index (SOURCES_LIST cfg) 0 of
        Inl ex \<Rightarrow> (Some (Inl ex), [])
      | Inr s0 \<Rightarrow>
          if source_choice u = Some s0 then
            call_with_model mv (\<lambda>m. returned (infer_uploaded_image (confidence u) m u))
          else
            (case py_index (SOURCES_LIST cfg) 1 of
               Inl ex \<Rightarrow> (Some (Inl ex), [])
             | Inr s1 \<Rightarrow>
                 if source_choice u = Some s1 then
                   call_with_model mv
                     (\<lambda>m. returned (infer_uploaded_video (tmp_buffer_size e) (cv2_decoder e)
                                       (confidence u) m u))
                 else
                   (case py_index (SOURCES_LIST cfg) 2 of
                      Inl ex \<Rightarrow> (Some (Inl ex), [])
                    | Inr s2 \<Rightarrow>
                        if source_choice u = Some s2 then
                          call_with_model mv
                            (\<lambda>m. infer_uploaded_webcam fuel (confidence u) m (webcam e) u)
                        else (Some (Inr ()), [St_error Unknown_source]))))"

text \<open>
  One run of the script. Reading the background image (line 18) comes first and is not
  inside a \<open>try\<close>.
\<close>

definition app ::
  "nat \<Rightarrow> config \<Rightarrow> env \<Rightarrow> ui \<Rightarrow> loader_state \<Rightarrow> (exn + unit) option \<times> event list \<times> loader_state" where
  "app fuel cfg e u s =
     (case background_image e of
        Inl ex \<Rightarrow> (Some (Inl ex), [], s)
      | Inr _ \<Rightarrow>
          (case load_step cfg e u s of
             (mv, evs, s') \<Rightarrow>
               (case dispatch fuel cfg e u mv of
                  (r, evs') \<Rightarrow> (r, evs @ evs', s'))))"

subsection \<open>Reading a trace\<close>

fun is_inference :: "event \<Rightarrow> bool" where
  "is_inference (Predict_call i img c r) = True"
| "is_inference ev = False"

fun is_error_report :: "event \<Rightarrow> bool" where
  "is_error_report (St_error msg) = True"
| "is_error_report ev = False"

fun is_open :: "event \<Rightarrow> bool" where
  "is_open (Capture_open src) = True"
| "is_open ev = False"

definition inference_calls :: "event list \<Rightarrow> nat" where
  "inference_calls evs = length (filter is_inference evs)"

definition error_reports :: "event list \<Rightarrow> nat" where
  "error_reports evs = length (filter is_error_report evs)"

definition opens :: "event list \<Rightarrow> nat" where
  "opens evs = length (filter is_open evs)"

definition releases :: "event list \<Rightarrow> nat" where
  "releases evs = count_list evs Capture_release"



text \<open>The result of a detection on the page: the slot of the loops, the result image and
  the box details of the image mode.\<close>

fun is_result_display :: "event \<Rightarrow> bool" where
  "is_result_display (Slot_image p) = True"
| "is_result_display (St_image_result p) = True"
| "is_result_display (St_write_box b) = True"
| "is_result_display ev = False"

definition result_displays :: "event list \<Rightarrow> nat" where
  "result_displays evs = length (filter is_result_display evs)"

fun is_load_error :: "event \<Rightarrow> bool" where
  "is_load_error (St_error (Load_failed p)) = True"
| "is_load_error ev = False"

definition load_error_reports :: "event list \<Rightarrow> nat" where
  "load_error_reports evs = length (filter is_load_error evs)"


text \<open>The events a capture loop performs.\<close>

fun is_loop_event :: "event \<Rightarrow> bool" where
  "is_loop_event (Capture_read f) = True"
| "is_loop_event Capture_release = True"
| "is_loop_event (Predict_call i img c r) = True"
| "is_loop_event (Slot_image p) = True"
| "is_loop_event ev = False"

text \<open>An inference call of the trace was made with the threshold \<open>t\<close>, and every box of
  its result has at least that confidence.\<close>

fun threshold_kept :: "real \<Rightarrow> event \<Rightarrow> bool" where
  "threshold_kept t (Predict_call i img c r) =
     (c = t \<and> (case r of Inl e \<Rightarrow> True | Inr res \<Rightarrow> list_all (\<lambda>b. t \<le> box_conf b) (boxes res)))"
| "threshold_kept t ev = True"

section \<open>Concrete inputs\<close>

definition hd_frame :: "nat \<Rightarrow> frame" where
  "hd_frame k = \<lparr>width = 1280, height = 720, pixels = k\<rparr>"

definition demo_path :: model_path where
  "demo_path = Path ''weights'' ''yolov8n.pt''"


definition raising_detector :: detector where
  "raising_detector = (\<lambda>img. Inl (LibraryError ''malformed input''))"

definition raising_model :: model where
  "raising_model = \<lparr>model_id = 0, ckpt_path = demo_path, detector = raising_detector\<rparr>"

definition box_of :: "real \<Rightarrow> box" where
  "box_of c = \<lparr>xywh = (10, 20, 30, 40), cls = 4, box_conf = c\<rparr>"

definition plane_model :: model where
  "plane_model =
     \<lparr>model_id = 0, ckpt_path = demo_path,
      detector = (\<lambda>img. Inr [box_of (9 / 10), box_of (2 / 10)])\<rparr>"

definition idle_ui :: ui where
  "idle_ui =
     \<lparr>model_choice = Some ''yolov8n.pt'', slider = 50, source_choice = Some ''Image'',
      image_upload = None, video_upload = None, start_button = False, stop_button = False\<rparr>"

text \<open>A toy container format: four bytes of header, then one byte per frame. The decoder
  opens a file that starts with the header.\<close>

definition magic :: bytes where
  "magic = [82, 73, 70, 70]"

definition demo_cv2 :: decoder where
  "demo_cv2 bs =
     (if take 4 bs = magic then \<lparr>is_opened = True, decoded = map hd_frame (drop 4 bs)\<rparr>
      else \<lparr>is_opened = False, decoded = []\<rparr>)"

definition video_of :: "nat \<Rightarrow> video_file" where
  "video_of n = \<lparr>content = magic @ [0..<n]\<rparr>"

definition demo_config :: config where
  "demo_config =
     \<lparr>DETECTION_MODEL_LIST = [''yolov8n.pt''], DETECTION_MODEL_DIR = ''weights'',
      SOURCES_LIST = [''Image'', ''Video'', ''Webcam'']\<rparr>"

definition empty_loader :: loader_state where
  "empty_loader = \<lparr>cache = (\<lambda>p. None), next_id = 0\<rparr>"

text \<open>An environment where every weights file loads the given detector, one where no
  weights file loads; the camera delivers two frames and then fails; the temporary file
  has a buffer of four bytes.\<close>

definition two_frame_camera :: camera where
  "two_frame_camera k = (if k < 2 then Some (hd_frame k) else None)"

definition env_with :: "detector \<Rightarrow> env" where
  "env_with d =
     \<lparr>background_image = Inr ''aW1hZ2U='', yolo_weights = (\<lambda>p. Inr d),
      webcam = two_frame_camera, tmp_buffer_size = 4, cv2_decoder = demo_cv2\<rparr>"

definition env_without_weights :: env where
  "env_without_weights =
     \<lparr>background_image = Inr ''aW1hZ2U='',
      yolo_weights = (\<lambda>p. Inl (LibraryError ''no such file'')),
      webcam = two_frame_camera, tmp_buffer_size = 4, cv2_decoder = demo_cv2\<rparr>"

text \<open>Weights on disk: a model at \<open>demo_path\<close>, nothing that loads anywhere else.\<close>

definition demo_weights :: weights where
  "demo_weights p =
     (if p = demo_path then Inr (\<lambda>img. Inr []) else Inl (LibraryError ''no such file''))"

definition events_of :: "'r \<times> event list \<times> loader_state \<Rightarrow> event list" where
  "events_of x = fst (snd x)"

definition photo :: image_file where
  "photo = \<lparr>pil_open = Inr (hd_frame 0)\<rparr>"

definition broken_video :: video_file where
  "broken_video = \<lparr>content = [0, 1, 2, 3, 4, 5]\<rparr>"

definition image_run :: ui where
  "image_run = idle_ui\<lparr>image_upload := Some photo, start_button := True\<rparr>"

definition image_run_at :: "int \<Rightarrow> ui" where
  "image_run_at k = image_run\<lparr>slider := k\<rparr>"

definition video_run :: "video_file \<Rightarrow> ui" where
  "video_run v =
     idle_ui\<lparr>source_choice := Some ''Video'', video_upload := Some v, start_button := True\<rparr>"

definition webcam_run :: ui where
  "webcam_run = idle_ui\<lparr>source_choice := Some ''Webcam''\<rparr>"

section \<open>Floats of the slider\<close>

lemma rne_of_int: "rne (of_int n) = n"
  by (simp add: rne_def)

lemma rne_close: "\<bar>of_int (rne y) - y\<bar> \<le> 1 / 2"
  unfolding rne_def Let_def by (auto simp: abs_le_iff)

lemma exponent_down2:
  assumes "1 / 4 \<le> x" and "x < 1 / 2"
  shows "exponent_from (Suc (Suc (Suc n))) x e = e - 2"
  using assms by simp

lemma exponent_down1:
  assumes "1 / 2 \<le> x" and "x < 1"
  shows "exponent_from (Suc (Suc n)) x e = e - 1"
  using assms by simp

lemma exponent_up4:
  assumes "16 \<le> x" and "x < 32"
  shows "exponent_from (Suc (Suc (Suc (Suc (Suc n))))) x e = e + 4"
  using assms by simp

lemma exponent_up5:
  assumes "32 \<le> x" and "x < 64"
  shows "exponent_from (Suc (Suc (Suc (Suc (Suc (Suc n)))))) x e = e + 5"
  using assms by simp

lemma exponent_up6:
  assumes "64 \<le> x" and "x < 128"
  shows "exponent_from (Suc (Suc (Suc (Suc (Suc (Suc (Suc n))))))) x e = e + 6"
  using assms by simp

lemma fuel_1100: "(1100 :: nat) = Suc (Suc (Suc (Suc (Suc (Suc (Suc 1093))))))"
  by simp

lemma exponent_quarter: "1 / 4 \<le> x \<Longrightarrow> x < 1 / 2 \<Longrightarrow> exponent_from 1100 x 0 = - 2"
  by (subst fuel_1100) (simp only: exponent_down2)

lemma exponent_half: "1 / 2 \<le> x \<Longrightarrow> x < 1 \<Longrightarrow> exponent_from 1100 x 0 = - 1"
  by (subst fuel_1100) (simp only: exponent_down1)

lemma exponent_stay: "exponent_from (Suc n) 1 e = e"
  by simp

lemma exponent_one: "exponent_from 1100 1 0 = 0"
  by (subst fuel_1100) (simp only: exponent_stay)

lemma exponent_16: "16 \<le> x \<Longrightarrow> x < 32 \<Longrightarrow> exponent_from 1100 x 0 = 4"
  by (subst fuel_1100) (simp only: exponent_up4)

lemma exponent_32: "32 \<le> x \<Longrightarrow> x < 64 \<Longrightarrow> exponent_from 1100 x 0 = 5"
  by (subst fuel_1100) (simp only: exponent_up5)

lemma exponent_64: "64 \<le> x \<Longrightarrow> x < 128 \<Longrightarrow> exponent_from 1100 x 0 = 6"
  by (subst fuel_1100) (simp only: exponent_up6)

text \<open>float(k) is exact for the integers of the slider.\<close>

lemma float_round_int:
  assumes "16 \<le> k" and "k < 128"
  shows "float_round (of_int k) = of_int k"
proof -
  consider "k < 32" | "32 \<le> k" "k < 64" | "64 \<le> k"
    by linarith
  then show ?thesis
  proof cases
    case 1
    have "exponent_from 1100 (of_int k) 0 = 4"
      using assms 1 by (intro exponent_16) simp_all
    moreover have "rne (real_of_int k * 2 ^ 48) = k * 2 ^ 48"
      using rne_of_int [of "k * 2 ^ 48"] by simp
    ultimately show ?thesis
      by (simp add: float_round_def Let_def pow2_def)
  next
    case 2
    have "exponent_from 1100 (of_int k) 0 = 5"
      using 2 by (intro exponent_32) simp_all
    moreover have "rne (real_of_int k * 2 ^ 47) = k * 2 ^ 47"
      using rne_of_int [of "k * 2 ^ 47"] by simp
    ultimately show ?thesis
      by (simp add: float_round_def Let_def pow2_def)
  next
    case 3
    have "exponent_from 1100 (of_int k) 0 = 6"
      using assms 3 by (intro exponent_64) simp_all
    moreover have "rne (real_of_int k * 2 ^ 46) = k * 2 ^ 46"
      using rne_of_int [of "k * 2 ^ 46"] by simp
    ultimately show ?thesis
      by (simp add: float_round_def Let_def pow2_def)
  qed
qed

lemma py_float_slider: "30 \<le> k \<Longrightarrow> k \<le> 100 \<Longrightarrow> py_float k = of_int k"
  using float_round_int [of k] by (simp add: py_float_def to_double_def)


lemma pow2_pos: "0 < pow2 s"
  by (simp add: pow2_def)

lemma float_round_close:
  assumes "exponent_from 1100 x 0 = e"
  shows "\<bar>float_round x - x\<bar> \<le> pow2 (e - 52) / 2"
proof -
  let ?p = "pow2 (e - 52)"
  have p: "0 < ?p" by (rule pow2_pos)
  have "float_round x - x = (of_int (rne (x / ?p)) - x / ?p) * ?p"
    using p assms by (simp add: float_round_def Let_def algebra_simps)
  then have "\<bar>float_round x - x\<bar> = \<bar>of_int (rne (x / ?p)) - x / ?p\<bar> * ?p"
    using p by (simp add: abs_mult)
  also have "\<dots> \<le> (1 / 2) * ?p"
    using rne_close [of "x / ?p"] p by (intro mult_right_mono) simp_all
  finally show ?thesis by simp
qed

lemma confidence_close:
  assumes "30 \<le> slider u" and "slider u \<le> 100"
  shows "\<bar>confidence u - real_of_int (slider u) / 100\<bar> \<le> 1 / 2 ^ 54
       \<and> 3 / 10 - 1 / 2 ^ 55 \<le> confidence u \<and> confidence u \<le> 1"
proof -
  let ?q = "real_of_int (slider u) / 100"
  have q: "3 / 10 \<le> ?q" "?q \<le> 1" "0 < ?q"
    using assms by simp_all
  have c: "confidence u = float_round ?q"
    using q py_float_slider [OF assms] by (simp add: confidence_def to_double_def)
  define x where "x = float_round ?q"
  define q where "q = ?q"
  have qb: "3 / 10 \<le> q" "q \<le> 1"
    using q by (simp_all add: q_def)
  have small: "(1 / 2 ^ 55 :: real) \<le> 1 / 2 ^ 54" "(0 :: real) < 1 / 2 ^ 55" "(1 / 2 ^ 54 :: real) \<le> 1 / 100"
    by simp_all
  consider "slider u < 50" | "50 \<le> slider u" "slider u < 100" | "slider u = 100"
    using assms by linarith
  then have "\<bar>x - q\<bar> \<le> 1 / 2 ^ 54 \<and> 3 / 10 - 1 / 2 ^ 55 \<le> x \<and> x \<le> 1"
  proof cases
    case 1
    then have h: "q < 1 / 2" by (simp add: q_def)
    then have "exponent_from 1100 q 0 = - 2"
      using qb by (intro exponent_quarter) simp_all
    then have "\<bar>x - q\<bar> \<le> 1 / 2 ^ 55"
      using float_round_close [of q "- 2"] by (simp add: pow2_def x_def q_def)
    then show ?thesis
      using qb h small by linarith
  next
    case 2
    then have h: "1 / 2 \<le> q" "q \<le> 99 / 100" by (simp_all add: q_def)
    then have "exponent_from 1100 q 0 = - 1"
      by (intro exponent_half) simp_all
    then have "\<bar>x - q\<bar> \<le> 1 / 2 ^ 54"
      using float_round_close [of q "- 1"] by (simp add: pow2_def x_def q_def)
    then show ?thesis
      using h small by linarith
  next
    case 3
    then have "q = 1" by (simp add: q_def)
    moreover have "float_round 1 = 1"
      using rne_of_int [of "2 ^ 52"] by (simp add: float_round_def Let_def exponent_one pow2_def)
    ultimately show ?thesis
      by (simp add: x_def q_def)
  qed
  then show ?thesis
    unfolding c x_def q_def .
qed

lemma py_float_30: "py_float 30 = 30"
  using py_float_slider [of 30] by simp

lemma confidence_30:
  "slider u = 30 \<Longrightarrow> confidence u = 5404319552844595 / 18014398509481984"
proof -
  assume s: "slider u = 30"
  have e: "exponent_from 1100 (3 / 10) 0 = - 2"
    by (intro exponent_quarter) simp_all
  have r: "rne (3 / 10 * 2 ^ 54) = 5404319552844595"
    by (simp add: rne_def Let_def)
  show ?thesis
    using s e r py_float_30
    by (simp add: confidence_def to_double_def float_round_def Let_def pow2_def)
qed

lemma confidence_40:
  "slider u = 40 \<Longrightarrow> confidence u = 3602879701896397 / 9007199254740992"
proof -
  assume s: "slider u = 40"
  have e: "exponent_from 1100 (2 / 5) 0 = - 2"
    by (intro exponent_quarter) simp_all
  have r: "rne (2 / 5 * 2 ^ 54) = 7205759403792794"
    by (simp add: rne_def Let_def)
  show ?thesis
    using s e r py_float_slider [of 40]
    by (simp add: confidence_def to_double_def float_round_def Let_def pow2_def)
qed

lemma confidence_50: "slider u = 50 \<Longrightarrow> confidence u = 1 / 2"
proof -
  assume s: "slider u = 50"
  have e: "exponent_from 1100 (1 / 2) 0 = - 1"
    by (intro exponent_half) simp_all
  have r: "rne (1 / 2 * 2 ^ 53) = 4503599627370496"
    using rne_of_int [of 4503599627370496] by simp
  show ?thesis
    using s e r py_float_slider [of 50]
    by (simp add: confidence_def to_double_def float_round_def Let_def pow2_def)
qed

section \<open>The video loop\<close>

lemma std_height_405: "std_height = 405"
  by (simp add: std_height_def)




lemma infer_video_run:
  "infer_uploaded_video bs cv conf m (video_run v)
     = (case video_loop conf m (is_opened (vid_cap_of bs cv v)) (decoded (vid_cap_of bs cv v)) of
          (Inl e, evs) \<Rightarrow>
            (Inr (), [St_video, St_button Start_button, Capture_open Temp_file] @ evs
                       @ [St_error (Video_failed e)])
        | (Inr _, evs) \<Rightarrow>
            (Inr (), [St_video, St_button Start_button, Capture_open Temp_file] @ evs))"
  by (simp add: infer_uploaded_video_def video_run_def idle_ui_def)

lemma vid_cap_video_of:
  "0 < n \<Longrightarrow> vid_cap_of 4 demo_cv2 (video_of n)
     = \<lparr>is_opened = True, decoded = map hd_frame [0..<n]\<rparr>"
  by (simp add: vid_cap_of_def tfile_write_def video_of_def demo_cv2_def magic_def)



text \<open>
  The temporary file of lines 109-110 is not flushed: an upload that fits the buffer
  leaves an empty file on disk, and a decoder that does not open an empty file makes the
  run end after \<open>cv2.VideoCapture\<close>, with no read, no inference and no message.
\<close>

lemma buffered_upload_is_not_opened:
  assumes "length (content v) \<le> bs" and "\<not> is_opened (cv [])"
  shows "infer_uploaded_video bs cv conf m (u\<lparr>video_upload := Some v, start_button := True\<rparr>)
           = (Inr (), [St_video, St_button Start_button, Capture_open Temp_file])"
  using assms by (simp add: infer_uploaded_video_def vid_cap_of_def tfile_write_def)

section \<open>The confidence threshold in the three modes\<close>

lemma display_events:
  "list_all (\<lambda>ev. threshold_kept t ev \<and> is_loop_event ev) (snd (display_detected_frames t m f))"
  by (simp add: display_detected_frames_def predict_def Let_def list_all_iff split: sum.splits)

lemma video_loop_events:
  "list_all (\<lambda>ev. threshold_kept t ev \<and> is_loop_event ev) (snd (video_loop t m b fs))"
proof (induction t m b fs rule: video_loop.induct)
  case (3 conf m f fs)
  show ?case
    using 3 display_events [of conf m f]
    by (cases "display_detected_frames conf m f"; cases "video_loop conf m True fs")
       (auto split: sum.splits)
qed simp_all

lemma webcam_loop_events:
  "list_all (\<lambda>ev. threshold_kept t ev \<and> is_loop_event ev) (snd (webcam_loop n t m flag cam k))"
proof (induction n arbitrary: k)
  case 0
  show ?case by simp
next
  case (Suc n)
  show ?case
  proof (cases "\<not> flag")
    case False
    then show ?thesis by simp
  next
    case nf: True
    show ?thesis
    proof (cases "cam k")
      case None
      with nf show ?thesis by simp
    next
      case (Some f)
      show ?thesis
        using nf Some Suc [of "Suc k"] display_events [of t m f]
        by (cases "display_detected_frames t m f"; cases "webcam_loop n t m flag cam (Suc k)")
           (auto split: sum.splits)
    qed
  qed
qed

lemma image_events:
  "list_all (threshold_kept t) (snd (infer_uploaded_image t m u))"
  by (auto simp: infer_uploaded_image_def predict_def list_all_iff
      split: option.splits sum.splits)

lemma video_events:
  "list_all (threshold_kept t) (snd (infer_uploaded_video bs cv t m u))"
proof -
  have "list_all (threshold_kept t) evs" if "video_loop t m b fs = (r, evs)" for b fs r evs
    using video_loop_events [of t m b fs] that by (simp add: list_all_iff)
  then show ?thesis
    by (auto simp: infer_uploaded_video_def split: option.splits prod.splits sum.splits)
qed

lemma webcam_events:
  "list_all (threshold_kept t) (snd (infer_uploaded_webcam fuel t m cam u))"
proof -
  have "list_all (threshold_kept t) evs" if "webcam_loop fuel t m flag cam k = (r, evs)"
    for flag k r evs
    using webcam_loop_events [of t fuel m flag cam k] that by (simp add: list_all_iff)
  then show ?thesis
    by (auto simp: infer_uploaded_webcam_def Let_def split: option.splits prod.splits sum.splits)
qed

lemma threshold_keptD:
  assumes "list_all (threshold_kept t) evs" and "Predict_call i img c r \<in> set evs"
  shows "c = t \<and> (\<forall>res. r = Inr res \<longrightarrow> (\<forall>b \<in> set (boxes res). t \<le> box_conf b))"
  using assms by (auto simp: list_all_iff split: sum.splits)

text \<open>
  Claim C4. In the image mode, the video mode and the camera mode, every inference call
  that returns was made with the threshold \<open>t\<close> the mode was given, and every box of its
  result has confidence at least \<open>t\<close>. The filter itself is the model's: \<open>predict\<close> is
  modelled from the spec. The part of the code is that each mode hands \<open>t\<close> to each call
  unchanged and shows what the call returned. The statement holds for every real \<open>t\<close>,
  so for every \<open>t\<close> in [0, 1].
\<close>

theorem boxes_reach_threshold:
  "\<forall>ev \<in> set (snd (infer_uploaded_image t m u)) \<union> set (snd (infer_uploaded_video bs cv t m u))
          \<union> set (snd (infer_uploaded_webcam fuel t m cam u)).
     \<forall>i img c res. ev = Predict_call i img c (Inr res)
       \<longrightarrow> c = t \<and> (\<forall>b \<in> set (boxes res). t \<le> box_conf b)"
  using threshold_keptD [OF image_events [of t m u]] threshold_keptD [OF video_events [of t bs cv m u]]
    threshold_keptD [OF webcam_events [of t fuel m cam u]]
  by blast


text \<open>At threshold 0.5 the candidate of confidence 0.9 is kept and the one of 0.2 is not.\<close>

theorem boxes_reach_threshold_witness:
  "Predict_call 0 (hd_frame 0) (1 / 2) (Inr \<lparr>orig_img = hd_frame 0, boxes = [box_of (9 / 10)]\<rparr>)
     \<in> set (snd (infer_uploaded_image (1 / 2) plane_model image_run))
   \<and> (1 / 2 :: real) \<le> box_conf (box_of (9 / 10))
   \<and> length (filter is_inference (snd (infer_uploaded_video 4 demo_cv2 (1 / 2) plane_model
        (video_run (video_of 2))))) = 2"
proof -
  have v: "vid_cap_of 4 demo_cv2 (video_of 2)
             = \<lparr>is_opened = True, decoded = [hd_frame 0, hd_frame 1]\<rparr>"
    using vid_cap_video_of [of 2] by (simp add: upt_rec)
  show ?thesis
    using boxes_reach_threshold [where t = "1 / 2" and m = plane_model and u = image_run
        and bs = 4 and cv = demo_cv2 and fuel = 3 and cam = two_frame_camera]
    unfolding infer_video_run v
    by (simp add: infer_uploaded_image_def image_run_def idle_ui_def
        photo_def plane_model_def predict_def box_of_def
        display_detected_frames_def Let_def hd_frame_def)
qed

section \<open>Exit paths that do not release the capture\<close>

text \<open>
  Claim C2. The claim asks for one release on every exit path. The path of lines 117-119
  releases; the path through \<open>except\<close> does not. A video of one frame (five bytes, more than
  the buffer of the temporary file, so they are on disk) on a model whose call raises: the
  capture is opened, the frame is read, the call raises, the handler of line 120 reports,
  and \<open>release\<close> is never called.
\<close>

theorem inference_error_leaves_capture_open:
  "infer_uploaded_video 4 demo_cv2 (1 / 2) raising_model (video_run (video_of 1))
     = (Inr (),
        [St_video, St_button Start_button, Capture_open Temp_file,
         Capture_read (Some (hd_frame 0)),
         Predict_call 0 (cv2_resize (hd_frame 0) (720, 405)) (1 / 2)
           (Inl (LibraryError ''malformed input'')),
         St_error (Video_failed (LibraryError ''malformed input''))])
   \<and> opens (snd (infer_uploaded_video 4 demo_cv2 (1 / 2) raising_model (video_run (video_of 1)))) = 1
   \<and> releases (snd (infer_uploaded_video 4 demo_cv2 (1 / 2) raising_model (video_run (video_of 1)))) = 0"
proof -
  have v: "vid_cap_of 4 demo_cv2 (video_of 1) = \<lparr>is_opened = True, decoded = [hd_frame 0]\<rparr>"
    using vid_cap_video_of [of 1] by simp
  show ?thesis
    unfolding infer_video_run v
    by (simp add: raising_model_def raising_detector_def predict_def display_detected_frames_def Let_def
        std_height_405 opens_def releases_def)
qed

text \<open>
  Claim C3. With the stop button pressed, \<open>flag\<close> is true when the loop is reached: the
  camera has been opened on line 132, no frame is read, the loop is left through its
  condition, and no \<open>release\<close> follows, for every model, camera and other widget state.
\<close>

theorem stop_leaves_camera_open:
  "infer_uploaded_webcam (Suc n) conf m cam (u\<lparr>stop_button := True\<rparr>)
     = (Some (Inr ()), [St_button Stop_button, Capture_open (Device 0)])
   \<and> opens (snd (infer_uploaded_webcam (Suc n) conf m cam (u\<lparr>stop_button := True\<rparr>))) = 1
   \<and> releases (snd (infer_uploaded_webcam (Suc n) conf m cam (u\<lparr>stop_button := True\<rparr>))) = 0"
  by (simp add: infer_uploaded_webcam_def opens_def releases_def)

section \<open>Errors that are not reported by the code\<close>

lemma load_step_demo:
  "load_step demo_config (env_with d) (idle_ui\<lparr>slider := k, source_choice := sc,
       image_upload := iu, video_upload := vu, start_button := sb, stop_button := tb\<rparr>)
       empty_loader
     = (Some \<lparr>model_id = 0, ckpt_path = demo_path, detector = d\<rparr>,
        [Yolo_construct demo_path True],
        \<lparr>cache = (\<lambda>p. None)(demo_path \<mapsto> \<lparr>model_id = 0, ckpt_path = demo_path, detector = d\<rparr>),
         next_id = Suc 0\<rparr>)"
  by (simp add: load_step_def load_model_def YOLO_def env_with_def empty_loader_def
      model_path_of_def truthy_def demo_config_def idle_ui_def demo_path_def Let_def)

text \<open>
  Claim C6. In the image mode \<open>model.predict\<close> is called outside every \<open>try\<close>: an
  exception of the call leaves \<open>infer_uploaded_image\<close> and then the script, which has no
  handler around line 122; no \<open>st.error\<close> is performed. The video and camera modes catch
  the same exception (lines 120 and 141).
\<close>

theorem image_inference_error_escapes:
  "infer_uploaded_image (1 / 2) raising_model image_run
     = (Inl (LibraryError ''malformed input''),
        [St_image_upload, St_button Start_button,
         Predict_call 0 (hd_frame 0) (1 / 2) (Inl (LibraryError ''malformed input''))])
   \<and> error_reports (snd (infer_uploaded_image (1 / 2) raising_model image_run)) = 0
   \<and> fst (app 1 demo_config (env_with raising_detector) image_run empty_loader)
       = Some (Inl (LibraryError ''malformed input''))
   \<and> error_reports (events_of (app 1 demo_config (env_with raising_detector) image_run empty_loader)) = 0"
proof -
  have i: "infer_uploaded_image (1 / 2) raising_model image_run
     = (Inl (LibraryError ''malformed input''),
        [St_image_upload, St_button Start_button,
         Predict_call 0 (hd_frame 0) (1 / 2) (Inl (LibraryError ''malformed input''))])"
    by (simp add: infer_uploaded_image_def image_run_def idle_ui_def photo_def raising_model_def
        raising_detector_def predict_def)
  have c: "confidence image_run = 1 / 2"
    by (rule confidence_50) (simp add: image_run_def idle_ui_def)
  have sc: "source_choice image_run = Some ''Image''"
    by (simp add: image_run_def idle_ui_def)
  have m: "\<lparr>model_id = 0, ckpt_path = demo_path, detector = raising_detector\<rparr> = raising_model"
    by (simp add: raising_model_def)
  have d: "dispatch 1 demo_config (env_with raising_detector) image_run (Some raising_model)
     = (Some (Inl (LibraryError ''malformed input'')),
        [St_image_upload, St_button Start_button,
         Predict_call 0 (hd_frame 0) (1 / 2) (Inl (LibraryError ''malformed input''))])"
    by (simp add: dispatch_def py_index_def demo_config_def call_with_model_def returned_def
        i c sc)
  have l: "load_step demo_config (env_with raising_detector) image_run empty_loader
     = (Some raising_model, [Yolo_construct demo_path True],
        \<lparr>cache = (\<lambda>p. None)(demo_path \<mapsto> raising_model), next_id = Suc 0\<rparr>)"
    using load_step_demo [where d = raising_detector and sc = "Some ''Image''" and iu = "Some photo"
        and vu = None and sb = True and tb = False and k = 50] m
    by (simp add: image_run_def idle_ui_def)
  have a: "app 1 demo_config (env_with raising_detector) image_run empty_loader
     = (Some (Inl (LibraryError ''malformed input'')),
        [Yolo_construct demo_path True, St_image_upload, St_button Start_button,
         Predict_call 0 (hd_frame 0) (1 / 2) (Inl (LibraryError ''malformed input''))],
        \<lparr>cache = (\<lambda>p. None)(demo_path \<mapsto> raising_model), next_id = Suc 0\<rparr>)"
    using l d by (simp add: app_def env_with_def)
  show ?thesis
    using i a by (simp add: error_reports_def events_of_def)
qed

text \<open>
  Claim C7. A file that OpenCV cannot open (six bytes without the header of the toy
  format, whatever the buffer of the temporary file): \<open>isOpened()\<close> is false, the loop
  body never runs, and the function returns with neither an error message nor a release. The handler
  of line 120, whose message is "error loading video", is reached only by an exception.
\<close>

theorem undecodable_video_is_silent:
  "infer_uploaded_video bs demo_cv2 conf m (u\<lparr>video_upload := Some broken_video, start_button := True\<rparr>)
     = (Inr (), [St_video, St_button Start_button, Capture_open Temp_file])
   \<and> error_reports (snd (infer_uploaded_video bs demo_cv2 conf m
        (u\<lparr>video_upload := Some broken_video, start_button := True\<rparr>))) = 0
   \<and> releases (snd (infer_uploaded_video bs demo_cv2 conf m
        (u\<lparr>video_upload := Some broken_video, start_button := True\<rparr>))) = 0"
  by (simp add: infer_uploaded_video_def broken_video_def error_reports_def releases_def
      vid_cap_of_def tfile_write_def demo_cv2_def magic_def)

section \<open>The cached loader\<close>

lemma load_model_hit: "cache s p = Some m \<Longrightarrow> load_model ws p s = (Inr m, [], s)"
  by (simp add: load_model_def)

lemma load_model_keeps:
  "cache s p = Some m \<Longrightarrow> load_model ws q s = (r, evs, s') \<Longrightarrow> cache s' p = Some m"
  by (auto simp: load_model_def YOLO_def split: option.splits sum.splits)

lemma load_model_stores:
  "load_model ws p s = (Inr m, evs, s') \<Longrightarrow> cache s' p = Some m"
  by (auto simp: load_model_def YOLO_def split: option.splits sum.splits)

lemma load_model_constructs:
  "load_model ws q s = (r, evs, s') \<Longrightarrow>
     evs = [] \<or> evs = [Yolo_construct q False] \<or> evs = [Yolo_construct q True] \<and> (\<exists>m. r = Inr m)"
  by (auto simp: load_model_def YOLO_def split: option.splits sum.splits)

lemma load_model_calls_cached:
  "cache s p = Some m \<Longrightarrow> load_model_calls ws ps s = (rs, evs, s') \<Longrightarrow>
     cache s' p = Some m \<and> (\<forall>i < length ps. ps ! i = p \<longrightarrow> rs ! i = Inr m)
     \<and> (\<forall>b. Yolo_construct p b \<notin> set evs)"
proof (induction ps arbitrary: s rs evs s')
  case Nil
  then show ?case by simp
next
  case (Cons q ps)
  obtain r1 e1 s1 where a: "load_model ws q s = (r1, e1, s1)"
    by (cases "load_model ws q s")
  obtain rs2 e2 s2 where b: "load_model_calls ws ps s1 = (rs2, e2, s2)"
    by (cases "load_model_calls ws ps s1")
  have eq: "rs = r1 # rs2" "evs = e1 @ e2" "s' = s2"
    using Cons.prems(2) a b by simp_all
  have k: "cache s1 p = Some m"
    using load_model_keeps [OF Cons.prems(1) a] .
  have ih: "cache s2 p = Some m \<and> (\<forall>i < length ps. ps ! i = p \<longrightarrow> rs2 ! i = Inr m)
     \<and> (\<forall>b. Yolo_construct p b \<notin> set e2)"
    using Cons.IH [OF k b] .
  have first: "q = p \<Longrightarrow> r1 = Inr m \<and> e1 = []"
    using load_model_hit [OF Cons.prems(1), of ws] a by simp
  have ev1: "\<forall>b. Yolo_construct p b \<notin> set e1"
    using load_model_constructs [OF a] first by auto
  have idx: "\<forall>i < length (q # ps). (q # ps) ! i = p \<longrightarrow> (r1 # rs2) ! i = Inr m"
  proof (intro allI impI)
    fix i assume "i < length (q # ps)" and "(q # ps) ! i = p"
    then show "(r1 # rs2) ! i = Inr m"
      using first ih by (cases i) auto
  qed
  show ?case
    using eq ih ev1 idx by simp
qed

text \<open>
  Claim C5. Over any sequence of calls of \<open>load_model\<close> in one process, from any state of
  the cache: two calls with the same path that return, return the same handle (the same
  object, identity included); for every path at most one call constructs a model; an entry
  of the cache is never replaced or changed; and every handle that was returned is the one
  the cache holds for its path at the end. The cache is the decorator's, modelled from the
  spec. A call that raises stores nothing, so such a path is tried again at its next call.
\<close>

theorem load_model_returns_cached_handle:
  assumes "load_model_calls ws ps s = (rs, evs, s')"
  shows "(\<forall>i j m m'. i < length ps \<and> j < length ps \<and> ps ! i = ps ! j
            \<and> rs ! i = Inr m \<and> rs ! j = Inr m' \<longrightarrow> m = m')
       \<and> (\<forall>p. count_list evs (Yolo_construct p True) \<le> 1)
       \<and> (\<forall>p m. cache s p = Some m \<longrightarrow> cache s' p = Some m)
       \<and> (\<forall>i m. i < length ps \<and> rs ! i = Inr m \<longrightarrow> cache s' (ps ! i) = Some m)"
  using assms
proof (induction ps arbitrary: s rs evs s')
  case Nil
  then show ?case by simp
next
  case (Cons q ps)
  obtain r1 e1 s1 where a: "load_model ws q s = (r1, e1, s1)"
    by (cases "load_model ws q s")
  obtain rs2 e2 s2 where b: "load_model_calls ws ps s1 = (rs2, e2, s2)"
    by (cases "load_model_calls ws ps s1")
  have eq: "rs = r1 # rs2" "evs = e1 @ e2" "s' = s2"
    using Cons.prems a b by simp_all
  note ih = Cons.IH [OF b]
  have later: "rs2 ! j = Inr m \<and> cache s2 q = Some m \<and> (\<forall>b. Yolo_construct q b \<notin> set e2)"
    if "r1 = Inr m" and "j < length ps" and "ps ! j = q" for m j
    using load_model_calls_cached [OF load_model_stores b] a that by auto
  have stored: "cache s2 q = Some m" if "r1 = Inr m" for m
    using load_model_calls_cached [OF load_model_stores b] a that by auto
  have quiet: "\<forall>b. Yolo_construct q b \<notin> set e2" if "r1 = Inr m" for m
    using load_model_calls_cached [OF load_model_stores b] a that by auto
  have same: "\<forall>i j m m'. i < length (q # ps) \<and> j < length (q # ps) \<and> (q # ps) ! i = (q # ps) ! j
            \<and> (r1 # rs2) ! i = Inr m \<and> (r1 # rs2) ! j = Inr m' \<longrightarrow> m = m'"
  proof (intro allI impI, elim conjE)
    fix i j m m'
    assume i: "i < length (q # ps)" and j: "j < length (q # ps)"
      and p: "(q # ps) ! i = (q # ps) ! j"
      and ri: "(r1 # rs2) ! i = Inr m" and rj: "(r1 # rs2) ! j = Inr m'"
    show "m = m'"
    proof (cases i)
      case 0
      show ?thesis
      proof (cases j)
        case 0
        with \<open>i = 0\<close> ri rj show ?thesis by simp
      next
        case (Suc j')
        with 0 i j p ri rj later [of m j'] show ?thesis by auto
      qed
    next
      case (Suc i')
      show ?thesis
      proof (cases j)
        case 0
        with Suc i j p ri rj later [of m' i'] show ?thesis by auto
      next
        case (Suc j')
        with \<open>i = Suc i'\<close> i j p ri rj ih show ?thesis by auto
      qed
    qed
  qed
  have once: "\<forall>p. count_list (e1 @ e2) (Yolo_construct p True) \<le> 1"
  proof
    fix p
    have c2: "count_list e2 (Yolo_construct p True) \<le> 1"
      using ih by blast
    consider "e1 = []" | "e1 = [Yolo_construct q False]"
      | m where "e1 = [Yolo_construct q True]" and "r1 = Inr m"
      using load_model_constructs [OF a] by blast
    then show "count_list (e1 @ e2) (Yolo_construct p True) \<le> 1"
    proof cases
      case 1
      with c2 show ?thesis by simp
    next
      case 2
      with c2 show ?thesis by simp
    next
      case 3
      show ?thesis
      proof (cases "p = q")
        case True
        have "count_list e2 (Yolo_construct q True) = 0"
          using quiet [OF 3(2)] by (simp add: count_list_0_iff)
        with 3 True show ?thesis by simp
      next
        case False
        with 3 c2 show ?thesis by simp
      qed
    qed
  qed
  have kept: "\<forall>p m. cache s p = Some m \<longrightarrow> cache s2 p = Some m"
    using load_model_keeps [OF _ a] ih by blast
  have held: "\<forall>i m. i < length (q # ps) \<and> (r1 # rs2) ! i = Inr m \<longrightarrow> cache s2 ((q # ps) ! i) = Some m"
  proof (intro allI impI, elim conjE)
    fix i m assume i: "i < length (q # ps)" and r: "(r1 # rs2) ! i = Inr m"
    show "cache s2 ((q # ps) ! i) = Some m"
    proof (cases i)
      case 0
      with r stored show ?thesis by simp
    next
      case (Suc i')
      with i r ih show ?thesis by auto
    qed
  qed
  show ?case
    unfolding eq using same once kept held by blast
qed


text \<open>Three calls: the first and the third return the model object 0, constructed once; the
  second, on a path with no weights, raises.\<close>

theorem load_model_returns_cached_handle_witness:
  "fst (load_model_calls demo_weights [demo_path, Str [], demo_path] empty_loader) ! 0
     = Inr \<lparr>model_id = 0, ckpt_path = demo_path, detector = (\<lambda>img. Inr [])\<rparr>
   \<and> fst (load_model_calls demo_weights [demo_path, Str [], demo_path] empty_loader) ! 2
     = Inr \<lparr>model_id = 0, ckpt_path = demo_path, detector = (\<lambda>img. Inr [])\<rparr>
   \<and> fst (snd (load_model_calls demo_weights [demo_path, Str [], demo_path] empty_loader))
     = [Yolo_construct demo_path True, Yolo_construct (Str []) False]
   \<and> count_list (fst (snd (load_model_calls demo_weights [demo_path, Str [], demo_path] empty_loader)))
        (Yolo_construct demo_path True) = 1"
  using load_model_returns_cached_handle [of demo_weights "[demo_path, Str [], demo_path]" empty_loader
      "fst (load_model_calls demo_weights [demo_path, Str [], demo_path] empty_loader)"
      "fst (snd (load_model_calls demo_weights [demo_path, Str [], demo_path] empty_loader))"
      "snd (snd (load_model_calls demo_weights [demo_path, Str [], demo_path] empty_loader))"]
  by (simp add: load_model_def YOLO_def demo_weights_def empty_loader_def demo_path_def)

section \<open>A failed load\<close>

lemma load_model_raises:
  assumes "fst (load_model ws p s) = Inl ex"
  shows "load_model ws p s = (Inl ex, [Yolo_construct p False], s) \<and> cache s p = None"
  using assms by (auto simp: load_model_def YOLO_def split: option.splits sum.splits)

lemma dispatch_unbound:
  "snd (dispatch fuel cfg e u None) = [] \<or> snd (dispatch fuel cfg e u None) = [St_error Unknown_source]"
  by (simp add: dispatch_def call_with_model_def split: sum.splits)

text \<open>
  Claim C8. When \<open>load_model\<close> raises in a run of the script (the background image has been
  read, so the run reaches line 110): the name \<open>model\<close> stays unbound and the cache holds
  no model for the path, the message of line 112 is shown exactly once, and the trace of
  the run has no inference call. The last part holds because the dispatch of lines 121-126
  evaluates the unbound name \<open>model\<close> and raises \<open>NameError\<close> before any of the three
  functions starts; with a source outside the list, line 128 reports and nothing else runs.
\<close>

theorem failed_load_stops_before_inference:
  assumes "background_image e = Inr bg"
    and "fst (load_model (yolo_weights e) (model_path_of cfg u) s) = Inl ex"
  shows "fst (load_step cfg e u s) = None
       \<and> cache (snd (snd (load_step cfg e u s))) (model_path_of cfg u) = None
       \<and> load_error_reports (events_of (app fuel cfg e u s)) = 1
       \<and> inference_calls (events_of (app fuel cfg e u s)) = 0"
proof -
  let ?p = "model_path_of cfg u"
  let ?pre = "if truthy (model_choice u) then [] else [St_error Select_model]"
  have l: "load_model (yolo_weights e) ?p s = (Inl ex, [Yolo_construct ?p False], s)"
    and c: "cache s ?p = None"
    using load_model_raises [OF assms(2)] by simp_all
  have ls: "load_step cfg e u s = (None, ?pre @ [Yolo_construct ?p False, St_error (Load_failed ?p)], s)"
    using l by (simp add: load_step_def Let_def)
  obtain r evs where d: "dispatch fuel cfg e u None = (r, evs)"
    by (cases "dispatch fuel cfg e u None")
  have evs: "evs = [] \<or> evs = [St_error Unknown_source]"
    using dispatch_unbound [of fuel cfg e u] d by simp
  have a: "events_of (app fuel cfg e u s)
             = ?pre @ [Yolo_construct ?p False, St_error (Load_failed ?p)] @ evs"
    using assms(1) ls d by (simp add: app_def events_of_def)
  show ?thesis
    using ls c evs unfolding a by (auto simp: load_error_reports_def inference_calls_def)
qed

text \<open>No weights on disk, the image source selected: one load error, then \<open>NameError\<close>.\<close>

theorem failed_load_stops_before_inference_witness:
  "background_image env_without_weights = Inr ''aW1hZ2U=''
   \<and> fst (load_model (yolo_weights env_without_weights) (model_path_of demo_config image_run) empty_loader)
       = Inl (LibraryError ''no such file'')
   \<and> fst (load_step demo_config env_without_weights image_run empty_loader) = None
   \<and> load_error_reports (events_of (app 1 demo_config env_without_weights image_run empty_loader)) = 1
   \<and> inference_calls (events_of (app 1 demo_config env_without_weights image_run empty_loader)) = 0
   \<and> fst (app 1 demo_config env_without_weights image_run empty_loader) = Some (Inl (NameError ''model''))"
proof -
  have b: "background_image env_without_weights = Inr ''aW1hZ2U=''"
    by (simp add: env_without_weights_def)
  have l: "load_model (yolo_weights env_without_weights) (model_path_of demo_config image_run) empty_loader
             = (Inl (LibraryError ''no such file''), [Yolo_construct demo_path False], empty_loader)"
    by (simp add: load_model_def YOLO_def env_without_weights_def empty_loader_def
        model_path_of_def image_run_def idle_ui_def demo_config_def demo_path_def)
  have ls: "load_step demo_config env_without_weights image_run empty_loader
             = (None, [Yolo_construct demo_path False,
                       St_error (Load_failed (model_path_of demo_config image_run))], empty_loader)"
    using l by (simp add: load_step_def Let_def truthy_def image_run_def idle_ui_def)
  have d: "dispatch 1 demo_config env_without_weights image_run None
             = (Some (Inl (NameError ''model'')), [])"
    by (simp add: dispatch_def py_index_def demo_config_def call_with_model_def
        image_run_def idle_ui_def)
  have r: "fst (app 1 demo_config env_without_weights image_run empty_loader)
             = Some (Inl (NameError ''model''))"
    using b ls d by (simp add: app_def)
  have l': "fst (load_model (yolo_weights env_without_weights) (model_path_of demo_config image_run) empty_loader)
       = Inl (LibraryError ''no such file'')"
    using l by simp
  show ?thesis
    using failed_load_stops_before_inference [OF b l', of 1] b l' r by simp
qed


section \<open>The confidence of a session\<close>

lemma load_step_events:
  "list_all (threshold_kept t) (fst (snd (load_step cfg e u s)))"
  by (auto simp: load_step_def Let_def load_model_def YOLO_def
      split: option.splits sum.splits prod.splits)

lemma dispatch_events:
  "list_all (threshold_kept (confidence u)) (snd (dispatch fuel cfg e u mv))"
  using image_events [of "confidence u" _ u] video_events [of "confidence u" _ _ _ u]
    webcam_events [of "confidence u" fuel _ "webcam e" u]
  by (auto simp: dispatch_def call_with_model_def returned_def split: sum.splits option.splits)

lemma app_events:
  "list_all (threshold_kept (confidence u)) (events_of (app fuel cfg e u s))"
proof (cases "background_image e")
  case (Inl ex)
  then show ?thesis by (simp add: app_def events_of_def)
next
  case (Inr bg)
  obtain mv evs s' where l: "load_step cfg e u s = (mv, evs, s')"
    by (cases "load_step cfg e u s")
  obtain r evs' where d: "dispatch fuel cfg e u mv = (r, evs')"
    by (cases "dispatch fuel cfg e u mv")
  have "list_all (threshold_kept (confidence u)) evs"
    using load_step_events [of "confidence u" cfg e u s] l by simp
  moreover have "list_all (threshold_kept (confidence u)) evs'"
    using dispatch_events [of u fuel cfg e mv] d by simp
  ultimately show ?thesis
    using Inr l d by (simp add: app_def events_of_def)
qed

text \<open>
  Claim C9, amended. The slider of line 99 has the bounds 30 and 100, so its answer is an
  integer \<open>k\<close> in that range. Every inference call of a run of the script, whatever the
  source, is made with the same value \<open>float(k) / 100\<close>. The division is the division of
  binary64 floats, so the value is the double nearest to \<open>k / 100\<close>, not \<open>k / 100\<close>
  itself: it differs from \<open>k / 100\<close> by at most \<open>2^-54\<close> and lies between
  \<open>0.3 - 2^-55\<close> and 1.
\<close>

theorem inference_uses_slider_over_100:
  assumes "30 \<le> slider u" and "slider u \<le> 100"
  shows "\<forall>ev \<in> set (events_of (app fuel cfg e u s)).
           \<forall>i img c r. ev = Predict_call i img c r
             \<longrightarrow> c = to_double (py_float (slider u) / 100)
               \<and> \<bar>c - real_of_int (slider u) / 100\<bar> \<le> 1 / 2 ^ 54
               \<and> 3 / 10 - 1 / 2 ^ 55 \<le> c \<and> c \<le> 1"
proof (intro ballI allI impI)
  fix ev i img c r
  assume "ev \<in> set (events_of (app fuel cfg e u s))" and "ev = Predict_call i img c r"
  then have "c = confidence u"
    using threshold_keptD [OF app_events [of u fuel cfg e s]] by blast
  then show "c = to_double (py_float (slider u) / 100)
               \<and> \<bar>c - real_of_int (slider u) / 100\<bar> \<le> 1 / 2 ^ 54
               \<and> 3 / 10 - 1 / 2 ^ 55 \<le> c \<and> c \<le> 1"
    using confidence_close [OF assms] by (simp add: confidence_def)
qed

lemma app_demo_image_at:
  "events_of (app fuel demo_config (env_with d) (image_run_at k) empty_loader)
     = Yolo_construct demo_path True
       # snd (infer_uploaded_image (confidence (image_run_at k))
              \<lparr>model_id = 0, ckpt_path = demo_path, detector = d\<rparr> (image_run_at k))"
proof -
  have sc: "source_choice (image_run_at k) = Some ''Image''"
    by (simp add: image_run_at_def image_run_def idle_ui_def)
  have l: "load_step demo_config (env_with d) (image_run_at k) empty_loader
     = (Some \<lparr>model_id = 0, ckpt_path = demo_path, detector = d\<rparr>, [Yolo_construct demo_path True],
        \<lparr>cache = (\<lambda>p. None)(demo_path \<mapsto> \<lparr>model_id = 0, ckpt_path = demo_path, detector = d\<rparr>),
         next_id = Suc 0\<rparr>)"
    using load_step_demo [where d = d and sc = "Some ''Image''" and iu = "Some photo"
        and vu = None and sb = True and tb = False and k = k]
    by (simp add: image_run_at_def image_run_def idle_ui_def)
  obtain r evs where d: "dispatch fuel demo_config (env_with d) (image_run_at k)
              (Some \<lparr>model_id = 0, ckpt_path = demo_path, detector = d\<rparr>) = (r, evs)"
    by (cases "dispatch fuel demo_config (env_with d) (image_run_at k)
              (Some \<lparr>model_id = 0, ckpt_path = demo_path, detector = d\<rparr>)")
  have dd: "evs
     = snd (infer_uploaded_image (confidence (image_run_at k))
              \<lparr>model_id = 0, ckpt_path = demo_path, detector = d\<rparr> (image_run_at k))"
    using d
    by (simp add: dispatch_def py_index_def demo_config_def call_with_model_def returned_def sc)
  have b: "background_image (env_with d) = Inr ''aW1hZ2U=''"
    by (simp add: env_with_def)
  show ?thesis
    using b l d dd by (simp add: app_def events_of_def)
qed

lemma image_call_at:
  "Predict_call 0 (hd_frame 0) (confidence (image_run_at k)) (Inr \<lparr>orig_img = hd_frame 0, boxes = []\<rparr>)
     \<in> set (events_of (app 1 demo_config (env_with (\<lambda>img. Inr [])) (image_run_at k) empty_loader))"
  unfolding app_demo_image_at
  by (simp add: infer_uploaded_image_def predict_def image_run_at_def image_run_def idle_ui_def
      photo_def)

text \<open>The slider at 40: the call of the image mode is made with the double nearest to 0.4,
  which is above 0.4 by less than \<open>2^-54\<close>.\<close>

theorem inference_uses_slider_over_100_witness:
  "(30 :: int) \<le> slider (image_run_at 40) \<and> slider (image_run_at 40) \<le> 100
   \<and> Predict_call 0 (hd_frame 0) (3602879701896397 / 9007199254740992)
        (Inr \<lparr>orig_img = hd_frame 0, boxes = []\<rparr>)
       \<in> set (events_of (app 1 demo_config (env_with (\<lambda>img. Inr [])) (image_run_at 40) empty_loader))
   \<and> to_double (py_float (slider (image_run_at 40)) / 100) = 3602879701896397 / 9007199254740992
   \<and> \<bar>3602879701896397 / 9007199254740992 - real_of_int (slider (image_run_at 40)) / 100\<bar>
       \<le> (1 / 2 ^ 54 :: real)"
proof -
  have k: "slider (image_run_at 40) = 40"
    by (simp add: image_run_at_def)
  have c: "confidence (image_run_at 40) = 3602879701896397 / 9007199254740992"
    using confidence_40 [OF k] .
  have mem: "Predict_call 0 (hd_frame 0) (3602879701896397 / 9007199254740992)
        (Inr \<lparr>orig_img = hd_frame 0, boxes = []\<rparr>)
       \<in> set (events_of (app 1 demo_config (env_with (\<lambda>img. Inr [])) (image_run_at 40) empty_loader))"
    using image_call_at [of 40] unfolding c .
  have rng: "(30 :: int) \<le> slider (image_run_at 40)" "slider (image_run_at 40) \<le> 100"
    using k by simp_all
  have "(3602879701896397 / 9007199254740992 :: real) = to_double (py_float (slider (image_run_at 40)) / 100)
      \<and> \<bar>3602879701896397 / 9007199254740992 - real_of_int (slider (image_run_at 40)) / 100\<bar>
          \<le> (1 / 2 ^ 54 :: real)"
    using inference_uses_slider_over_100 [OF rng, of 1 demo_config "env_with (\<lambda>img. Inr [])"
        empty_loader] mem
    by blast
  note both = this
  note val = both [THEN conjunct1, symmetric] and bnd = both [THEN conjunct2]
  show ?thesis
    by (intro conjI) (rule rng mem val bnd)+
qed

text \<open>
  The claim as stated, at the lower end of the slider: with the slider at 30 the call of the
  image mode is made with 5404319552844595 / 2^54, which is not 30 / 100 and is below 0.30.
\<close>

theorem confidence_at_30_is_below_three_tenths:
  "slider (image_run_at 30) = 30
   \<and> Predict_call 0 (hd_frame 0) (5404319552844595 / 18014398509481984)
        (Inr \<lparr>orig_img = hd_frame 0, boxes = []\<rparr>)
       \<in> set (events_of (app 1 demo_config (env_with (\<lambda>img. Inr [])) (image_run_at 30) empty_loader))
   \<and> (5404319552844595 / 18014398509481984 :: real) \<noteq> 30 / 100
   \<and> (5404319552844595 / 18014398509481984 :: real) < 3 / 10"
proof -
  have k: "slider (image_run_at 30) = 30"
    by (simp add: image_run_at_def)
  have c: "confidence (image_run_at 30) = 5404319552844595 / 18014398509481984"
    using confidence_30 [OF k] .
  have mem: "Predict_call 0 (hd_frame 0) (5404319552844595 / 18014398509481984)
        (Inr \<lparr>orig_img = hd_frame 0, boxes = []\<rparr>)
       \<in> set (events_of (app 1 demo_config (env_with (\<lambda>img. Inr [])) (image_run_at 30) empty_loader))"
    using image_call_at [of 30] unfolding c .
  show ?thesis
    using k mem by simp
qed

section \<open>What starts an inference\<close>

lemma webcam_loop_no_button:
  "St_button b \<notin> set (snd (webcam_loop n t m flag cam k))"
  using webcam_loop_events [of t n m flag cam k] by (auto simp: list_all_iff)

text \<open>
  Claim C10. In the image mode and in the video mode there is no inference call and no
  result on the page (in the video mode no capture is opened either) unless a file is
  uploaded and the start button was pressed in this run. In the camera mode, for every
  state of the widgets, the first two effects are the stop button and the opening of
  device 0; the start button never appears; and when stop was not pressed the next effect
  is the first read of the camera.
\<close>

theorem inference_gated_by_upload_and_start:
  "(\<not> (image_upload u \<noteq> None \<and> start_button u)
      \<longrightarrow> inference_calls (snd (infer_uploaded_image conf m u)) = 0
        \<and> result_displays (snd (infer_uploaded_image conf m u)) = 0)
   \<and> (\<not> (video_upload u \<noteq> None \<and> start_button u)
      \<longrightarrow> inference_calls (snd (infer_uploaded_video bs cv conf m u)) = 0
        \<and> result_displays (snd (infer_uploaded_video bs cv conf m u)) = 0
        \<and> opens (snd (infer_uploaded_video bs cv conf m u)) = 0)
   \<and> take 2 (snd (infer_uploaded_webcam fuel conf m cam u))
       = [St_button Stop_button, Capture_open (Device 0)]
   \<and> St_button Start_button \<notin> set (snd (infer_uploaded_webcam fuel conf m cam u))
   \<and> (\<not> stop_button u \<and> 0 < fuel
      \<longrightarrow> snd (infer_uploaded_webcam fuel conf m cam u) ! 2 = Capture_read (cam 0))"
proof -
  have img: "\<not> (image_upload u \<noteq> None \<and> start_button u)
      \<longrightarrow> inference_calls (snd (infer_uploaded_image conf m u)) = 0
        \<and> result_displays (snd (infer_uploaded_image conf m u)) = 0"
    by (auto simp: infer_uploaded_image_def inference_calls_def result_displays_def
        split: option.splits sum.splits)
  have vid: "\<not> (video_upload u \<noteq> None \<and> start_button u)
      \<longrightarrow> inference_calls (snd (infer_uploaded_video bs cv conf m u)) = 0
        \<and> result_displays (snd (infer_uploaded_video bs cv conf m u)) = 0
        \<and> opens (snd (infer_uploaded_video bs cv conf m u)) = 0"
    by (auto simp: infer_uploaded_video_def inference_calls_def result_displays_def opens_def
        split: option.splits)
  obtain r evs where l: "webcam_loop fuel conf m (stop_button u) cam 0 = (r, evs)"
    by (cases "webcam_loop fuel conf m (stop_button u) cam 0")
  have w: "snd (infer_uploaded_webcam fuel conf m cam u)
             = [St_button Stop_button, Capture_open (Device 0)] @ evs
           \<or> (\<exists>ex. snd (infer_uploaded_webcam fuel conf m cam u)
             = [St_button Stop_button, Capture_open (Device 0)] @ evs @ [St_error (Video_failed ex)])"
    using l by (auto simp: infer_uploaded_webcam_def Let_def split: option.splits sum.splits)
  have nb: "St_button Start_button \<notin> set evs"
    using webcam_loop_no_button [of Start_button fuel conf m "stop_button u" cam 0] l by simp
  have first: "\<exists>rest. evs = Capture_read (cam 0) # rest" if ns: "\<not> stop_button u" and fp: "0 < fuel"
  proof -
    obtain n where n: "fuel = Suc n"
      using fp by (cases fuel) auto
    show ?thesis
      using l ns unfolding n
      by (cases "cam 0"; cases "display_detected_frames conf m (the (cam 0))";
          cases "webcam_loop n conf m (stop_button u) cam (Suc 0)")
         (auto split: sum.splits)
  qed
  have cam: "take 2 (snd (infer_uploaded_webcam fuel conf m cam u))
       = [St_button Stop_button, Capture_open (Device 0)]
   \<and> St_button Start_button \<notin> set (snd (infer_uploaded_webcam fuel conf m cam u))
   \<and> (\<not> stop_button u \<and> 0 < fuel
      \<longrightarrow> snd (infer_uploaded_webcam fuel conf m cam u) ! 2 = Capture_read (cam 0))"
    using w nb first by auto
  show ?thesis
    using img vid cam by blast
qed

text \<open>An uploaded image without a click on start: the upload is shown, nothing is inferred.
  The camera mode with no click at all: the third effect is the read of the first frame.\<close>

theorem inference_gated_by_upload_and_start_witness:
  "\<not> (image_upload (idle_ui\<lparr>image_upload := Some photo\<rparr>) \<noteq> None
       \<and> start_button (idle_ui\<lparr>image_upload := Some photo\<rparr>))
   \<and> snd (infer_uploaded_image (1 / 2) plane_model (idle_ui\<lparr>image_upload := Some photo\<rparr>))
       = [St_image_upload, St_button Start_button]
   \<and> inference_calls (snd (infer_uploaded_image (1 / 2) plane_model (idle_ui\<lparr>image_upload := Some photo\<rparr>))) = 0
   \<and> \<not> (video_upload idle_ui \<noteq> None \<and> start_button idle_ui)
   \<and> inference_calls (snd (infer_uploaded_video 4 demo_cv2 (1 / 2) plane_model idle_ui)) = 0
   \<and> \<not> stop_button webcam_run \<and> (0 :: nat) < 3
   \<and> snd (infer_uploaded_webcam 3 (1 / 2) plane_model two_frame_camera webcam_run) ! 2
       = Capture_read (Some (hd_frame 0))"
  using inference_gated_by_upload_and_start [where u = "idle_ui\<lparr>image_upload := Some photo\<rparr>"
      and conf = "1 / 2" and m = plane_model and fuel = 3 and cam = two_frame_camera
      and bs = 4 and cv = demo_cv2]
    inference_gated_by_upload_and_start [where u = idle_ui
      and conf = "1 / 2" and m = plane_model and fuel = 3 and cam = two_frame_camera
      and bs = 4 and cv = demo_cv2]
    inference_gated_by_upload_and_start [where u = webcam_run
      and conf = "1 / 2" and m = plane_model and fuel = 3 and cam = two_frame_camera
      and bs = 4 and cv = demo_cv2]
  by (simp add: idle_ui_def photo_def webcam_run_def two_frame_camera_def
      infer_uploaded_image_def)

end
